theory Spec2Isabelle
  imports Complex_Main "HOL-Library.AList"
begin

section \<open>Time series and the curve sampler\<close>

text \<open>
  A series (\<open>PlotData\<close>) is the sequence of its samples, each a pair of a timestamp and a
  value, in storage order. The numbers are C++ \<open>double\<close>s in the program; here they are
  real numbers, so rounding is outside the model.
\<close>

type_synonym Point = "real \<times> real"

type_synonym PlotData = "Point list"

text \<open>
  The invariant the data model assumes of a series (it is not enforced by the plugin):
  timestamps never decrease along the series. Equal timestamps are allowed.
\<close>

definition monotone_series :: "PlotData \<Rightarrow> bool" where
  "monotone_series pts = sorted (map fst pts)"

text \<open>
  Walks the series from the sample \<open>(t0, v0)\<close> onwards and interpolates linearly on the
  first segment whose right end lies strictly after the query time; past the last sample
  the value of the last sample is kept.
\<close>

fun bracket :: "Point \<Rightarrow> PlotData \<Rightarrow> real \<Rightarrow> real" where
  "bracket (t0, v0) [] t = v0"
| "bracket (t0, v0) ((t1, v1) # rest) t =
     (if t < t1 then v0 + (v1 - v0) * (t - t0) / (t1 - t0)
      else bracket (t1, v1) rest t)"

text \<open>
  Modelled from the spec: \<open>PlotData::getYfromX\<close>, which \<open>PublisherVideo::updateState\<close>
  calls on the series it found, is declared in the host's plot-data header and is not
  among the sources. The definition follows the sampling policy of the specification:
  no value for a series without samples; the first sample's value before the first
  timestamp; the last sample's value after the last timestamp; linear interpolation
  between the two bracketing samples inside the time range.
\<close>

definition getYfromX :: "PlotData \<Rightarrow> real \<Rightarrow> real option" where
  "getYfromX pts t =
     (case pts of
        [] \<Rightarrow> None
      | p # rest \<Rightarrow>
          if t < fst p then Some (snd p)
          else if fst (last pts) < t then Some (snd (last pts))
          else Some (bracket p rest t))"

section \<open>The video dialog and the publisher\<close>

text \<open>
  The calls the publisher makes on its collaborators: the series repository (\<open>find\<close>),
  the series found (\<open>getYfromX\<close>) and the dialog (\<open>pause\<close>, \<open>seekByValue\<close>,
  \<open>loadFile\<close>, \<open>show\<close>, \<open>hide\<close>, \<open>restoreGeometry\<close>). The publisher's state keeps the
  sequence of the calls made so far, oldest first, so that what a function did to its
  collaborators can be read off the state it returns.
\<close>

datatype Call =
    Find string
  | GetYfromX string real
  | Pause bool
  | SeekByValue real
  | LoadFile string
  | Show
  | Hide
  | RestoreGeometry string

text \<open>
  Modelled from the spec: the class \<open>VideoDialog\<close> (its header, its form and its member
  functions) is not among the sources. The record holds what the publisher reads and
  writes through it: the visibility of the widget, the two line edits and the two radio
  buttons of the form, and the media driver's paused flag and last seek value.
\<close>

record VideoDialog =
  hidden :: bool
  lineFilename :: string
  lineEditReference :: string
  radioButtonFrame :: bool
  radioButtonTime :: bool
  paused :: bool
  seek_value :: "real option"
  geometry :: string

definition isHidden :: "VideoDialog \<Rightarrow> bool" where
  "isHidden d = hidden d"

definition referenceCurve :: "VideoDialog \<Rightarrow> string" where
  "referenceCurve d = lineEditReference d"

definition isPaused :: "VideoDialog \<Rightarrow> bool" where
  "isPaused d = paused d"

definition saveGeometry :: "VideoDialog \<Rightarrow> string" where
  "saveGeometry d = geometry d"

text \<open>The two radio buttons exclude each other: checking one unchecks the other.\<close>

definition setChecked_radioButtonFrame :: "VideoDialog \<Rightarrow> VideoDialog" where
  "setChecked_radioButtonFrame d = d\<lparr>radioButtonFrame := True, radioButtonTime := False\<rparr>"

definition setChecked_radioButtonTime :: "VideoDialog \<Rightarrow> VideoDialog" where
  "setChecked_radioButtonTime d = d\<lparr>radioButtonFrame := False, radioButtonTime := True\<rparr>"

definition setText_lineEditReference :: "string \<Rightarrow> VideoDialog \<Rightarrow> VideoDialog" where
  "setText_lineEditReference txt d = d\<lparr>lineEditReference := txt\<rparr>"

text \<open>
  Modelled from the spec: what each call does to the dialog. \<open>pause\<close> sets the paused
  flag, \<open>seekByValue\<close> records the position asked for, \<open>loadFile\<close> makes the path the
  media source, \<open>show\<close> and \<open>hide\<close> switch the visibility, \<open>restoreGeometry\<close> takes a
  non-empty saved geometry. The two reads leave the dialog as it is.
\<close>

fun perform :: "Call \<Rightarrow> VideoDialog \<Rightarrow> VideoDialog" where
  "perform (Find name) d = d"
| "perform (GetYfromX name t) d = d"
| "perform (Pause b) d = d\<lparr>paused := b\<rparr>"
| "perform (SeekByValue v) d = d\<lparr>seek_value := Some v\<rparr>"
| "perform (LoadFile filename) d = d\<lparr>lineFilename := filename\<rparr>"
| "perform Show d = d\<lparr>hidden := False\<rparr>"
| "perform Hide d = d\<lparr>hidden := True\<rparr>"
| "perform (RestoreGeometry g) d = (if g = [] then d else d\<lparr>geometry := g\<rparr>)"

text \<open>
  The publisher: its dialog, the host's series repository (\<open>_datamap->numeric\<close>, read
  only), the flag \<open>_xml_loaded\<close>, and the calls made so far.
\<close>

record PublisherVideo =
  dialog :: VideoDialog
  numeric :: "string \<rightharpoonup> PlotData"
  xml_loaded :: bool
  trace :: "Call list"

definition invoke :: "Call \<Rightarrow> PublisherVideo \<Rightarrow> PublisherVideo" where
  "invoke c s = s\<lparr>dialog := perform c (dialog s), trace := trace s @ [c]\<rparr>"

definition on_ui :: "(VideoDialog \<Rightarrow> VideoDialog) \<Rightarrow> PublisherVideo \<Rightarrow> PublisherVideo" where
  "on_ui f s = s\<lparr>dialog := f (dialog s)\<rparr>"

text \<open>The calls made between an earlier state and a later one.\<close>

definition new_calls :: "PublisherVideo \<Rightarrow> PublisherVideo \<Rightarrow> Call list" where
  "new_calls s s' = drop (length (trace s)) (trace s')"

subsection \<open>The per-tick entry point\<close>

text \<open>
  Lines 43 to 50 of \<open>updateState\<close>: with a position in hand, pause the media unless
  it is paused already, then seek.
\<close>

definition drive :: "real \<Rightarrow> PublisherVideo \<Rightarrow> PublisherVideo" where
  "drive position s =
     invoke (SeekByValue position)
       (if \<not> isPaused (dialog s) then invoke (Pause True) s else s)"

text \<open>
  \<open>PublisherVideo::updateState\<close>. The first argument stands for
  \<open>PlotData::getYfromX\<close>, so that what holds of \<open>updateState\<close> whatever the sampler
  returns can be stated as such.
\<close>

definition updateState ::
  "(PlotData \<Rightarrow> real \<Rightarrow> real option) \<Rightarrow> real \<Rightarrow> PublisherVideo \<Rightarrow> PublisherVideo" where
  "updateState getY current_time s =
     (if isHidden (dialog s) then s
      else
        let ref_curve = referenceCurve (dialog s) in
        if ref_curve = [] then s
        else
          let s1 = invoke (Find ref_curve) s in
          case numeric s1 ref_curve of
            None \<Rightarrow> s1
          | Some data \<Rightarrow>
              let s2 = invoke (GetYfromX ref_curve current_time) s1 in
              (case getY data current_time of
                 None \<Rightarrow> s2
               | Some position \<Rightarrow> drive position s2))"

definition play ::
  "(PlotData \<Rightarrow> real \<Rightarrow> real option) \<Rightarrow> real \<Rightarrow> PublisherVideo \<Rightarrow> PublisherVideo" where
  "play getY current_time s = updateState getY current_time s"

subsection \<open>The document fragment\<close>

text \<open>
  Qt's DOM, as far as the program uses it. An element has a tag name, attributes (in the
  order they were set, one value per name) and child nodes; a node is an element or a
  node of another kind (text, comment, processing instruction), of which only the node
  name matters here. A null \<open>QDomElement\<close> or \<open>QDomNode\<close> is \<open>None\<close>.
\<close>

datatype QDomElement =
    Element (tagName: string) (attributes: "(string \<times> string) list") (childNodes: "QDomNode list")
and QDomNode =
    ElementNode QDomElement
  | OtherNode string

fun nodeName :: "QDomNode \<Rightarrow> string" where
  "nodeName (ElementNode e) = tagName e"
| "nodeName (OtherNode name) = name"

fun toElement :: "QDomNode \<Rightarrow> QDomElement option" where
  "toElement (ElementNode e) = Some e"
| "toElement (OtherNode name) = None"

text \<open>The child elements in document order: what \<open>firstChildElement()\<close> followed by
  \<open>nextSiblingElement()\<close> until the null element visits.\<close>

definition childElements :: "QDomElement \<Rightarrow> QDomElement list" where
  "childElements e = List.map_filter toElement (childNodes e)"

definition firstChildElement :: "string \<Rightarrow> QDomElement \<Rightarrow> QDomElement option" where
  "firstChildElement name e = find (\<lambda>c. tagName c = name) (childElements e)"

definition createElement :: "string \<Rightarrow> QDomElement" where
  "createElement name = Element name [] []"

definition setAttribute :: "string \<Rightarrow> string \<Rightarrow> QDomElement \<Rightarrow> QDomElement" where
  "setAttribute name val e =
     Element (tagName e) (AList.update name val (attributes e)) (childNodes e)"

definition hasAttribute :: "QDomElement \<Rightarrow> string \<Rightarrow> bool" where
  "hasAttribute e name = (map_of (attributes e) name \<noteq> None)"

definition attribute :: "string \<Rightarrow> QDomElement \<Rightarrow> string" where
  "attribute name e = (case map_of (attributes e) name of None \<Rightarrow> [] | Some val \<Rightarrow> val)"

definition appendChild :: "QDomElement \<Rightarrow> QDomElement \<Rightarrow> QDomElement" where
  "appendChild child e =
     Element (tagName e) (attributes e) (childNodes e @ [ElementNode child])"

subsection \<open>Saving and loading the state\<close>

text \<open>
  \<open>PublisherVideo::xmlSaveState\<close>: the function is \<open>const\<close>, so the result is the
  returned flag and the parent element with the new child.
\<close>

definition xmlSaveState :: "QDomElement \<Rightarrow> PublisherVideo \<Rightarrow> bool \<times> QDomElement" where
  "xmlSaveState parent_element s =
     (let config = createElement ''config'';
          config = setAttribute ''video_file'' (lineFilename (dialog s)) config;
          config = setAttribute ''curve_name'' (lineEditReference (dialog s)) config;
          config = setAttribute ''use_frame''
                     (if radioButtonFrame (dialog s) then ''true'' else ''false'') config
      in (True, appendChild config parent_element))"

text \<open>The fragment \<open>xmlSaveState\<close> is expected to append: a \<open>config\<close> element with the
  media file, the curve name and the frame flag of the form, and no children.\<close>

definition saved_config :: "PublisherVideo \<Rightarrow> QDomElement" where
  "saved_config s =
     Element ''config''
       [(''video_file'', lineFilename (dialog s)),
        (''curve_name'', lineEditReference (dialog s)),
        (''use_frame'', if radioButtonFrame (dialog s) then ''true'' else ''false'')] []"

text \<open>\<open>PublisherVideo::xmlLoadState\<close>: the returned flag and the publisher afterwards.\<close>

definition xmlLoadState :: "QDomElement \<Rightarrow> PublisherVideo \<Rightarrow> bool \<times> PublisherVideo" where
  "xmlLoadState parent_element s =
     (case firstChildElement ''config'' parent_element of
        None \<Rightarrow> (False, s)
      | Some config \<Rightarrow>
          let s1 = invoke (LoadFile (attribute ''video_file'' config)) s;
              s2 = on_ui (setText_lineEditReference (attribute ''curve_name'' config)) s1;
              s3 = (if attribute ''use_frame'' config = ''true''
                    then on_ui setChecked_radioButtonFrame s2
                    else on_ui setChecked_radioButtonTime s2)
          in (True, s3\<lparr>xml_loaded := True\<rparr>))"

subsection \<open>Enabling and disabling\<close>

text \<open>
  What the plugin reaches outside itself: the application's \<open>QSettings\<close> store, the
  process environment, the standard output, the current directory, and the file system's
  answer to \<open>QFileInfo(path).absolutePath()\<close>. Stored values are strings; a saved geometry is the
  string of its bytes.
\<close>

record Host =
  settings :: "string \<rightharpoonup> string"
  environ :: "string \<rightharpoonup> string"
  stdout :: "string list"
  currentPath :: string
  absolutePath :: "string \<Rightarrow> string"

definition settings_value :: "Host \<Rightarrow> string \<Rightarrow> string \<Rightarrow> string" where
  "settings_value h key dflt = (case settings h key of None \<Rightarrow> dflt | Some v \<Rightarrow> v)"

definition setValue :: "string \<Rightarrow> string \<Rightarrow> Host \<Rightarrow> Host" where
  "setValue key v h = h\<lparr>settings := (settings h)(key \<mapsto> v)\<rparr>"

text \<open>
  \<open>PublisherVideo::commaLoadVideoFromEnvironment\<close>. The directory is first read from
  the store, with the current directory as the default; where the function goes on, that
  value is replaced by the directory of the video before it is written. The two
  \<open>printf\<close> calls are the two lines added to the standard output.
\<close>

definition commaLoadVideoFromEnvironment :: "Host \<Rightarrow> bool \<times> Host" where
  "commaLoadVideoFromEnvironment h =
     (let directory_path = settings_value h ''VideoDialog.loadDirectory'' (currentPath h) in
      case (environ h ''VIDEO_PATH'', environ h ''VIDEO_REFERENCE_CURVE'') of
        (Some videoPath, Some curve) \<Rightarrow>
          let directory_path = absolutePath h videoPath;
              h = h\<lparr>stdout := stdout h @ [''shitshityay2'', videoPath @ [CHR 0x09] @ curve]\<rparr>;
              h = setValue ''VideoDialog::loadDirectory'' directory_path h;
              h = setValue ''VideoDialog.loadDirectory'' directory_path h;
              h = setValue ''VideoDialog::video_file'' videoPath h;
              h = setValue ''VideoDialog::curve_name'' curve h;
              h = setValue ''VideoDialog.video_file'' videoPath h;
              h = setValue ''VideoDialog.curve_name'' curve h
          in (True, h)
      | _ \<Rightarrow> (False, h))"

text \<open>\<open>PublisherVideo::setEnabled\<close>, on the host and the publisher together.\<close>

definition setEnabled :: "bool \<Rightarrow> Host \<times> PublisherVideo \<Rightarrow> Host \<times> PublisherVideo" where
  "setEnabled enabled w =
     (let (useCommaVideo, h) = commaLoadVideoFromEnvironment (fst w);
          s = snd w
      in
        if enabled then
          let s = (if \<not> xml_loaded s \<or> useCommaVideo then
                     let filename = settings_value h ''VideoDialog::video_file'' [];
                         s = (if filename \<noteq> lineFilename (dialog s) \<or> useCommaVideo
                              then invoke (LoadFile filename) s else s);
                         curve_name = settings_value h ''VideoDialog::curve_name'' [];
                         s = on_ui (setText_lineEditReference curve_name) s
                     in invoke (RestoreGeometry (settings_value h ''VideoDialog::geometry'' [])) s
                   else s)
          in (h, invoke Show s)
        else
          let h = setValue ''VideoDialog::video_file'' (lineFilename (dialog s)) h;
              h = setValue ''VideoDialog::curve_name'' (lineEditReference (dialog s)) h;
              h = setValue ''VideoDialog::geometry'' (saveGeometry (dialog s)) h
          in (h, invoke Hide s))"

section \<open>The rule editor's validity check\<close>

text \<open>
  A parsed document is the list of the document node's children: the root element and
  whatever stands beside it (the XML declaration, comments, processing instructions).
  \<open>namedItem\<close> is \<open>QDomNode::namedItem\<close>: the first direct child, of any kind, whose node
  name is the one asked for. The node name of an element is its tag name, that of a
  processing instruction is its target, that of a comment is \<open>#comment\<close>.
\<close>

type_synonym QDomDocument = "QDomNode list"

definition namedItem :: "string \<Rightarrow> QDomDocument \<Rightarrow> QDomNode option" where
  "namedItem name doc = find (\<lambda>n. nodeName n = name) doc"

text \<open>The inner loop of \<open>isValidXml\<close> (lines 174 to 192) over the child elements of a
  \<open>RosType\<close>; \<open>Some\<close> is the early return with its message.\<close>

fun rule_loop :: "QDomElement list \<Rightarrow> string option" where
  "rule_loop [] = None"
| "rule_loop (rule_el # rest) =
     (if tagName rule_el \<noteq> ''rule''
      then Some ''<RosType> must have children named <rule>''
      else if \<not> hasAttribute rule_el ''pattern'' \<or> \<not> hasAttribute rule_el ''alias''
              \<or> \<not> hasAttribute rule_el ''substitution''
      then Some (''<rule> must have the attributes '' @ [CHR 0x27] @ ''pattern'' @ [CHR 0x27]
                 @ '', '' @ [CHR 0x27] @ ''alias'' @ [CHR 0x27] @ '' and '' @ [CHR 0x27]
                 @ ''substitution'' @ [CHR 0x27])
      else rule_loop rest)"

text \<open>The outer loop (lines 157 to 193) over the child elements of the root.\<close>

fun type_loop :: "QDomElement list \<Rightarrow> string option" where
  "type_loop [] = None"
| "type_loop (type_el # rest) =
     (if tagName type_el \<noteq> ''RosType''
      then Some ''<SubstitutionRules> must have children named <RosType>''
      else if \<not> hasAttribute type_el ''name''
      then Some ''node <RosType> must have the attribute [name]''
      else case rule_loop (childElements type_el) of
             Some errorStr \<Rightarrow> Some errorStr
           | None \<Rightarrow> type_loop rest)"

text \<open>
  \<open>RuleEditing::isValidXml\<close>. The parser (\<open>QDomDocument::setContent\<close> with namespace
  processing) is the first argument: it gives the error message or the document. The
  result is the text shown in the label \<open>labelValidSyntax\<close> and the returned flag.
\<close>

definition isValidXml ::
  "(string \<Rightarrow> string + QDomDocument) \<Rightarrow> string \<Rightarrow> string \<times> bool" where
  "isValidXml setContent text =
     (case setContent text of
        Inl errorStr \<Rightarrow> (''Invalid XML: '' @ errorStr, False)
      | Inr domDocument \<Rightarrow>
          (case Option.bind (namedItem ''SubstitutionRules'' domDocument) toElement of
             None \<Rightarrow> (''Invalid: '' @ ''the root node should be <SubstitutionRules>'', False)
           | Some root_el \<Rightarrow>
               (case type_loop (childElements root_el) of
                  Some errorStr \<Rightarrow> (''Invalid: '' @ errorStr, False)
                | None \<Rightarrow> (''Valid'', True))))"

text \<open>
  The condition in the words of the claim about \<open>isValidXml\<close>: the document has a root
  element named \<open>SubstitutionRules\<close>, each child element of it is a \<open>RosType\<close> with a
  \<open>name\<close>, and each child element of those is a \<open>rule\<close> with the three attributes.
\<close>

definition rule_ok :: "QDomElement \<Rightarrow> bool" where
  "rule_ok e =
     (tagName e = ''rule'' \<and> hasAttribute e ''pattern'' \<and> hasAttribute e ''alias''
      \<and> hasAttribute e ''substitution'')"

definition rostype_ok :: "QDomElement \<Rightarrow> bool" where
  "rostype_ok e =
     (tagName e = ''RosType'' \<and> hasAttribute e ''name'' \<and> list_all rule_ok (childElements e))"

definition rootElements :: "QDomDocument \<Rightarrow> QDomElement list" where
  "rootElements doc = List.map_filter toElement doc"

definition valid_rules_document :: "QDomDocument \<Rightarrow> bool" where
  "valid_rules_document doc =
     list_ex (\<lambda>r. tagName r = ''SubstitutionRules'' \<and> list_all rostype_ok (childElements r))
       (rootElements doc)"

section \<open>Example data\<close>

text \<open>A visible dialog that follows the curve \<open>speed\<close>, a publisher whose repository holds
  that curve and an empty one, a host whose store holds another file and curve, and the
  same host with a video and a curve given in the environment.\<close>

definition example_dialog :: VideoDialog where
  "example_dialog =
     \<lparr>hidden = False, lineFilename = ''/data/drive.mp4'', lineEditReference = ''speed'',
      radioButtonFrame = False, radioButtonTime = True, paused = False,
      seek_value = None, geometry = []\<rparr>"

definition example_publisher :: PublisherVideo where
  "example_publisher =
     \<lparr>dialog = example_dialog,
      numeric = [''speed'' \<mapsto> [(0, 10), (1, 20)], ''empty'' \<mapsto> []],
      xml_loaded = False, trace = []\<rparr>"

definition example_host :: Host where
  "example_host =
     \<lparr>settings = [''VideoDialog::video_file'' \<mapsto> ''/data/other.mp4'',
                  ''VideoDialog::curve_name'' \<mapsto> ''accel''],
      environ = Map.empty, stdout = [], currentPath = ''/home'',
      absolutePath = (\<lambda>path. ''/data'')\<rparr>"

definition example_host_env :: Host where
  "example_host_env =
     example_host\<lparr>environ := [''VIDEO_PATH'' \<mapsto> ''/data/route.hevc'',
                               ''VIDEO_REFERENCE_CURVE'' \<mapsto> ''steer'']\<rparr>"

text \<open>
  A text for the rule editor whose prolog holds a processing instruction with the target
  \<open>SubstitutionRules\<close>, the document Qt's parser builds from it (the processing
  instruction, then the root element), and a parser that knows this one text.
\<close>

definition example_rules_text :: string where
  "example_rules_text = ''<?SubstitutionRules x?><SubstitutionRules/>''"

definition example_rules_document :: QDomDocument where
  "example_rules_document =
     [OtherNode ''SubstitutionRules'', ElementNode (Element ''SubstitutionRules'' [] [])]"

definition example_setContent :: "string \<Rightarrow> string + QDomDocument" where
  "example_setContent txt =
     (if txt = example_rules_text then Inr example_rules_document
      else Inl ''error occurred while parsing element'')"

section \<open>Properties of the sampler\<close>

lemma bracket_segment:
  "sorted (map fst (p # rest)) \<Longrightarrow> Suc i < length (p # rest)
   \<Longrightarrow> fst ((p # rest) ! i) \<le> t \<Longrightarrow> t < fst ((p # rest) ! Suc i)
   \<Longrightarrow> bracket p rest t =
       snd ((p # rest) ! i) + (snd ((p # rest) ! Suc i) - snd ((p # rest) ! i)) * (t - fst ((p # rest) ! i))
         / (fst ((p # rest) ! Suc i) - fst ((p # rest) ! i))"
proof (induction rest arbitrary: p i)
  case Nil
  then show ?case by simp
next
  case (Cons q rest)
  obtain t0 v0 where p: "p = (t0, v0)" by (cases p)
  obtain t1 v1 where q: "q = (t1, v1)" by (cases q)
  show ?case
  proof (cases i)
    case 0
    with Cons.prems p q show ?thesis by simp
  next
    case (Suc k)
    from Cons.prems(1) have srt: "sorted (map fst (q # rest))" by simp
    from Cons.prems(2) Suc have len: "Suc k < length (q # rest)" by simp
    have "(q # rest) ! k \<in> set (q # rest)" using len by (intro nth_mem) simp
    then have "fst q \<le> fst ((q # rest) ! k)" using srt by auto
    with Cons.prems(3) Suc have ge: "t1 \<le> t" using q by simp
    have "bracket q rest t = snd ((q # rest) ! k) + (snd ((q # rest) ! Suc k) - snd ((q # rest) ! k)) * (t - fst ((q # rest) ! k))
         / (fst ((q # rest) ! Suc k) - fst ((q # rest) ! k))"
      using Cons.IH[OF srt len] Cons.prems(3,4) Suc by simp
    with ge p q Suc show ?thesis by simp
  qed
qed

lemma bracket_past_last:
  "sorted (map fst (p # rest)) \<Longrightarrow> fst (last (p # rest)) \<le> t
   \<Longrightarrow> bracket p rest t = snd (last (p # rest))"
proof (induction rest arbitrary: p)
  case Nil
  then show ?case by (cases p) simp
next
  case (Cons q rest)
  obtain t0 v0 where p: "p = (t0, v0)" by (cases p)
  obtain t1 v1 where q: "q = (t1, v1)" by (cases q)
  from Cons.prems(1) have srt: "sorted (map fst (q # rest))" by simp
  have "last (q # rest) \<in> set (q # rest)" by (rule last_in_set) simp
  then have "fst q \<le> fst (last (q # rest))" using srt by auto
  with Cons.prems(2) q have ge: "t1 \<le> t" by simp
  have "bracket q rest t = snd (last (q # rest))"
    using Cons.IH[OF srt] Cons.prems(2) by simp
  with ge p q show ?case by simp
qed

lemma sorted_first_le_nth:
  "sorted (map fst pts) \<Longrightarrow> i < length pts \<Longrightarrow> fst (hd pts) \<le> fst (pts ! i)"
  by (cases pts; cases i) auto

lemma sorted_nth_le_last:
  "sorted (map fst pts) \<Longrightarrow> i < length pts \<Longrightarrow> fst (pts ! i) \<le> fst (last pts)"
proof -
  assume s: "sorted (map fst pts)" and i: "i < length pts"
  then have ne: "pts \<noteq> []" by auto
  have "map fst pts ! i \<le> map fst pts ! (length pts - 1)"
    using s i by (intro sorted_nth_mono) auto
  then show ?thesis using i ne by (simp add: last_conv_nth)
qed

lemma getYfromX_segment:
  assumes "monotone_series pts" and "Suc i < length pts"
    and "fst (pts ! i) \<le> t" and "t < fst (pts ! Suc i)"
  shows "getYfromX pts t =
     Some (snd (pts ! i) + (snd (pts ! Suc i) - snd (pts ! i)) * (t - fst (pts ! i))
         / (fst (pts ! Suc i) - fst (pts ! i)))"
proof -
  from assms(2) obtain p rest where pts: "pts = p # rest" by (cases pts) auto
  have srt: "sorted (map fst pts)" using assms(1) by (simp add: monotone_series_def)
  have lo: "fst (hd pts) \<le> t"
    using sorted_first_le_nth[OF srt, of i] assms(2,3) by simp
  have hi: "t \<le> fst (last pts)"
    using sorted_nth_le_last[OF srt, of "Suc i"] assms(2,4) by simp
  have "bracket p rest t = snd (pts ! i) + (snd (pts ! Suc i) - snd (pts ! i)) * (t - fst (pts ! i))
         / (fst (pts ! Suc i) - fst (pts ! i))"
    using bracket_segment[of p rest i t] srt assms(2,3,4) unfolding pts by blast
  with lo hi show ?thesis unfolding getYfromX_def pts by (simp del: bracket.simps)
qed

lemma getYfromX_at_last:
  assumes "monotone_series pts" and "pts \<noteq> []"
  shows "getYfromX pts (fst (last pts)) = Some (snd (last pts))"
proof -
  from assms(2) obtain p rest where pts: "pts = p # rest" by (cases pts) auto
  have srt: "sorted (map fst pts)" using assms(1) by (simp add: monotone_series_def)
  have lo: "fst (hd pts) \<le> fst (last pts)"
    using sorted_nth_le_last[OF srt, of 0] assms(2) by (simp add: hd_conv_nth)
  have "bracket p rest (fst (last pts)) = snd (last pts)"
    using bracket_past_last[of p rest "fst (last pts)"] srt unfolding pts by blast
  with lo show ?thesis unfolding getYfromX_def pts by (simp del: bracket.simps last.simps)
qed

text \<open>
  Claim C1, as amended. For a series whose timestamps never decrease: a query time
  strictly between two consecutive samples \<open>(t0, v0)\<close> and \<open>(t1, v1)\<close> yields
  \<open>v0 + (v1 - v0) * (t - t0) / (t1 - t0)\<close>; and a query time equal to the timestamp of a
  sample yields that sample's value, provided no other sample of the series carries the
  same timestamp. Nothing is said of a timestamp that several samples share.
\<close>

theorem getYfromX_interpolates:
  assumes "monotone_series pts"
  shows "(Suc i < length pts \<and> pts ! i = (t0, v0) \<and> pts ! Suc i = (t1, v1) \<and> t0 < t \<and> t < t1
            \<longrightarrow> getYfromX pts t = Some (v0 + (v1 - v0) * (t - t0) / (t1 - t0)))
       \<and> (j < length pts \<and> (\<forall>k < length pts. k \<noteq> j \<longrightarrow> fst (pts ! k) \<noteq> fst (pts ! j))
            \<longrightarrow> getYfromX pts (fst (pts ! j)) = Some (snd (pts ! j)))"
proof (intro conjI impI)
  assume a: "Suc i < length pts \<and> pts ! i = (t0, v0) \<and> pts ! Suc i = (t1, v1) \<and> t0 < t \<and> t < t1"
  then show "getYfromX pts t = Some (v0 + (v1 - v0) * (t - t0) / (t1 - t0))"
    using getYfromX_segment[OF assms, of i t] by simp
next
  assume a: "j < length pts \<and> (\<forall>k < length pts. k \<noteq> j \<longrightarrow> fst (pts ! k) \<noteq> fst (pts ! j))"
  show "getYfromX pts (fst (pts ! j)) = Some (snd (pts ! j))"
  proof (cases "Suc j < length pts")
    case True
    have srt: "sorted (map fst pts)" using assms by (simp add: monotone_series_def)
    have "map fst pts ! j \<le> map fst pts ! Suc j"
      using srt True by (intro sorted_nth_mono) auto
    then have "fst (pts ! j) \<le> fst (pts ! Suc j)" using True by simp
    moreover have "fst (pts ! Suc j) \<noteq> fst (pts ! j)" using a True by simp
    ultimately have "fst (pts ! j) < fst (pts ! Suc j)" by simp
    then show ?thesis using getYfromX_segment[OF assms True, of "fst (pts ! j)"] by simp
  next
    case False
    with a have j: "j = length pts - 1" and ne: "pts \<noteq> []" by auto
    then have "pts ! j = last pts" by (simp add: last_conv_nth)
    then show ?thesis using getYfromX_at_last[OF assms ne] by simp
  qed
qed

theorem getYfromX_interpolates_witness:
  "monotone_series [(0, 10), (1, 20)]
   \<and> fst ([(0, 10), (1, 20 :: real)] ! 1) \<noteq> fst ([(0 :: real, 10), (1, 20 :: real)] ! 0)
   \<and> getYfromX [(0, 10), (1, 20)] (1 / 2) = Some 15
   \<and> getYfromX [(0, 10), (1, 20)] 0 = Some 10"
proof -
  have m: "monotone_series [(0, 10), (1, 20)]" by (simp add: monotone_series_def)
  have u: "\<forall>k < length [(0, 10), (1, 20 :: real)]. k \<noteq> 0
         \<longrightarrow> fst ([(0, 10), (1, 20 :: real)] ! k) \<noteq> fst ([(0 :: real, 10), (1, 20 :: real)] ! 0)"
    by (simp add: less_Suc_eq)
  from getYfromX_interpolates[OF m, of 0 0 10 1 20 "1 / 2" 0] u
  have "getYfromX [(0, 10), (1, 20)] (1 / 2) = Some 15 \<and> getYfromX [(0, 10), (1, 20)] 0 = Some 10"
    by simp
  moreover have "fst ([(0, 10), (1, 20 :: real)] ! 1) \<noteq> fst ([(0 :: real, 10), (1, 20 :: real)] ! 0)"
    by simp
  ultimately show ?thesis using m by blast
qed

text \<open>
  The claim as it was stated fails where two samples share a timestamp, which the
  invariant of a series allows: \<open>(0, 10)\<close> and \<open>(0, 20)\<close> are both samples at time \<open>0\<close>,
  and the value at \<open>0\<close> cannot be that of the one and that of the other. This holds of
  any sampler, whichever of the two it prefers.
\<close>

theorem getYfromX_duplicate_timestamp_counterexample:
  "monotone_series [(0, 10), (0, 20)]
   \<and> fst ([(0, 10), (0, 20)] ! 0) = (0::real)
   \<and> fst ([(0, 10), (0, 20)] ! 1) = (0::real)
   \<and> \<not> (getYfromX [(0, 10), (0, 20)] 0 = Some (snd ([(0, 10), (0, 20 :: real)] ! 0))
        \<and> getYfromX [(0, 10), (0, 20)] 0 = Some (snd ([(0, 10), (0, 20 :: real)] ! 1)))"
  by (auto simp: monotone_series_def)

lemma interpolation_between:
  fixes v0 v1 l :: real
  assumes "0 \<le> l" "l \<le> 1"
  shows "min v0 v1 \<le> v0 + (v1 - v0) * l \<and> v0 + (v1 - v0) * l \<le> max v0 v1"
proof (cases "v0 \<le> v1")
  case True
  have a: "0 \<le> (v1 - v0) * l" using True assms by simp
  have b: "(v1 - v0) * l \<le> v1 - v0"
    using mult_left_mono[of l 1 "v1 - v0"] True assms by simp
  from a b have "v0 \<le> v0 + (v1 - v0) * l \<and> v0 + (v1 - v0) * l \<le> v1" by linarith
  then show ?thesis using True by (simp add: min_def max_def)
next
  case False
  have a: "(v1 - v0) * l \<le> 0" using False assms by (simp add: mult_nonpos_nonneg)
  have b: "v1 - v0 \<le> (v1 - v0) * l"
    using mult_left_mono_neg[of l 1 "v1 - v0"] False assms by simp
  from a b have "v1 \<le> v0 + (v1 - v0) * l \<and> v0 + (v1 - v0) * l \<le> v0" by linarith
  then show ?thesis using False by (simp add: min_def max_def)
qed

lemma bracket_within:
  "sorted (map fst (p # rest)) \<Longrightarrow> fst p \<le> t
   \<Longrightarrow> \<exists>a \<in> set (p # rest). \<exists>b \<in> set (p # rest).
         min (snd a) (snd b) \<le> bracket p rest t \<and> bracket p rest t \<le> max (snd a) (snd b)"
proof (induction rest arbitrary: p)
  case Nil
  then show ?case by (cases p) simp
next
  case (Cons q rest)
  obtain t0 v0 where p: "p = (t0, v0)" by (cases p)
  obtain t1 v1 where q: "q = (t1, v1)" by (cases q)
  show ?case
  proof (cases "t < t1")
    case True
    with Cons.prems(2) p have "0 \<le> (t - t0) / (t1 - t0)" "(t - t0) / (t1 - t0) \<le> 1" by auto
    from interpolation_between[OF this, of v0 v1]
    have "min (snd p) (snd q) \<le> bracket p (q # rest) t \<and> bracket p (q # rest) t \<le> max (snd p) (snd q)"
      using True p q by simp
    then show ?thesis by (meson list.set_intros)
  next
    case False
    from Cons.prems(1) have srt: "sorted (map fst (q # rest))" by simp
    from False q have "fst q \<le> t" by simp
    from Cons.IH[OF srt this] obtain a b where
      "a \<in> set (q # rest)" "b \<in> set (q # rest)"
      "min (snd a) (snd b) \<le> bracket q rest t \<and> bracket q rest t \<le> max (snd a) (snd b)" by blast
    moreover have "bracket p (q # rest) t = bracket q rest t" using False p q by simp
    ultimately show ?thesis by (metis list.set_intros(2))
  qed
qed

lemma getYfromX_within:
  assumes "monotone_series pts" and "pts \<noteq> []"
  shows "\<exists>v. getYfromX pts t = Some v \<and> Min (snd ` set pts) \<le> v \<and> v \<le> Max (snd ` set pts)"
proof -
  from assms(2) obtain p rest where pts: "pts = p # rest" by (cases pts) auto
  have srt: "sorted (map fst (p # rest))" using assms(1) by (simp add: monotone_series_def pts)
  have mem: "\<And>a. a \<in> set pts \<Longrightarrow> Min (snd ` set pts) \<le> snd a \<and> snd a \<le> Max (snd ` set pts)"
    by simp
  show ?thesis
  proof (cases "t < fst p")
    case True
    then have "getYfromX pts t = Some (snd p)" by (simp add: getYfromX_def pts)
    with mem[of p] show ?thesis by (simp add: pts)
  next
    case lo: False
    show ?thesis
    proof (cases "fst (last pts) < t")
      case True
      with lo have "getYfromX pts t = Some (snd (last pts))" by (simp add: getYfromX_def pts)
      with mem[of "last pts"] assms(2) show ?thesis by simp
    next
      case False
      with lo have g: "getYfromX pts t = Some (bracket p rest t)" by (simp add: getYfromX_def pts)
      from lo have "fst p \<le> t" by simp
      from bracket_within[OF srt this] obtain a b where
        ab: "a \<in> set pts" "b \<in> set pts"
        and bnd: "min (snd a) (snd b) \<le> bracket p rest t" "bracket p rest t \<le> max (snd a) (snd b)"
        unfolding pts by blast
      from mem[OF ab(1)] mem[OF ab(2)] bnd
      have "Min (snd ` set pts) \<le> bracket p rest t \<and> bracket p rest t \<le> Max (snd ` set pts)"
        by linarith
      with g show ?thesis by simp
    qed
  qed
qed

text \<open>
  Claim C2. For a non-empty series whose timestamps never decrease: a query time before
  the first timestamp yields the first sample's value, a query time after the last
  timestamp yields the last sample's value, and no query time yields a value outside the
  range of the sample values, so nothing is extrapolated.
\<close>

theorem getYfromX_clamps:
  assumes "pts \<noteq> []" and "monotone_series pts"
  shows "(t < fst (hd pts) \<longrightarrow> getYfromX pts t = Some (snd (hd pts)))
       \<and> (fst (last pts) < t \<longrightarrow> getYfromX pts t = Some (snd (last pts)))
       \<and> (\<exists>v. getYfromX pts t = Some v \<and> Min (snd ` set pts) \<le> v \<and> v \<le> Max (snd ` set pts))"
proof (intro conjI impI)
  from assms(1) obtain p rest where pts: "pts = p # rest" by (cases pts) auto
  show "getYfromX pts t = Some (snd (hd pts))" if "t < fst (hd pts)"
    using that by (simp add: getYfromX_def pts)
  show "getYfromX pts t = Some (snd (last pts))" if hi: "fst (last pts) < t"
  proof -
    have "fst (hd pts) \<le> fst (last pts)"
      using sorted_nth_le_last[of pts 0] assms by (simp add: monotone_series_def hd_conv_nth)
    with hi have "\<not> t < fst p" by (simp add: pts)
    with hi show ?thesis unfolding getYfromX_def pts by (simp del: last.simps)
  qed
  show "\<exists>v. getYfromX pts t = Some v \<and> Min (snd ` set pts) \<le> v \<and> v \<le> Max (snd ` set pts)"
    by (rule getYfromX_within[OF assms(2,1)])
qed

theorem getYfromX_clamps_witness:
  "[(0, 10), (1, 20)] \<noteq> ([] :: PlotData) \<and> monotone_series [(0, 10), (1, 20)]
   \<and> getYfromX [(0, 10), (1, 20)] (- 1) = Some 10
   \<and> getYfromX [(0, 10), (1, 20)] 5 = Some 20"
  using getYfromX_clamps[of "[(0, 10), (1, 20)]" "- 1"] getYfromX_clamps[of "[(0, 10), (1, 20)]" 5]
  by (simp add: monotone_series_def)


section \<open>Properties of the per-tick entry point\<close>

lemma new_calls_append [simp]: "new_calls s (s'\<lparr>trace := trace s @ cs\<rparr>) = cs"
  by (simp add: new_calls_def)

text \<open>
  Claim C3. On a tick where the configured series name is not in the repository, or names
  a series without samples, \<open>updateState\<close> returns the publisher it was given, changed
  only by the record of the lookups it made: the dialog gets no call (no pause, no seek),
  nothing is raised and nothing is shown to the user.
\<close>

theorem updateState_absent_or_empty_series:
  assumes "numeric s (referenceCurve (dialog s)) = None
           \<or> numeric s (referenceCurve (dialog s)) = Some []"
  shows "\<exists>reads. updateState getYfromX t s = s\<lparr>trace := trace s @ reads\<rparr>
           \<and> set reads \<subseteq> {Find (referenceCurve (dialog s)), GetYfromX (referenceCurve (dialog s)) t}"
proof (cases "isHidden (dialog s) \<or> referenceCurve (dialog s) = []")
  case True
  then have "updateState getYfromX t s = s\<lparr>trace := trace s @ []\<rparr>"
    by (auto simp: updateState_def)
  then show ?thesis by (intro exI[of _ "[]"]) simp
next
  case False
  from assms show ?thesis
  proof
    assume "numeric s (referenceCurve (dialog s)) = None"
    with False have "updateState getYfromX t s = s\<lparr>trace := trace s @ [Find (referenceCurve (dialog s))]\<rparr>"
      by (simp add: updateState_def invoke_def Let_def)
    then show ?thesis by (intro exI[of _ "[Find (referenceCurve (dialog s))]"]) simp
  next
    assume "numeric s (referenceCurve (dialog s)) = Some []"
    with False have "updateState getYfromX t s =
        s\<lparr>trace := trace s @ [Find (referenceCurve (dialog s)), GetYfromX (referenceCurve (dialog s)) t]\<rparr>"
      by (simp add: updateState_def invoke_def Let_def getYfromX_def)
    then show ?thesis
      by (intro exI[of _ "[Find (referenceCurve (dialog s)), GetYfromX (referenceCurve (dialog s)) t]"]) simp
  qed
qed

theorem updateState_absent_or_empty_series_witness:
  "numeric (on_ui (setText_lineEditReference ''empty'') example_publisher) ''empty'' = Some []
   \<and> dialog (updateState getYfromX 3 (on_ui (setText_lineEditReference ''empty'') example_publisher))
       = dialog (on_ui (setText_lineEditReference ''empty'') example_publisher)
   \<and> numeric (on_ui (setText_lineEditReference ''missing'') example_publisher) ''missing'' = None
   \<and> dialog (updateState getYfromX 3 (on_ui (setText_lineEditReference ''missing'') example_publisher))
       = dialog (on_ui (setText_lineEditReference ''missing'') example_publisher)"
proof -
  let ?e = "on_ui (setText_lineEditReference ''empty'') example_publisher"
  let ?m = "on_ui (setText_lineEditReference ''missing'') example_publisher"
  have re: "referenceCurve (dialog ?e) = ''empty''" and rm: "referenceCurve (dialog ?m) = ''missing''"
    by (simp_all add: referenceCurve_def on_ui_def setText_lineEditReference_def)
  have he: "numeric ?e ''empty'' = Some []" and hm: "numeric ?m ''missing'' = None"
    by (simp_all add: on_ui_def example_publisher_def)
  from updateState_absent_or_empty_series[of ?e 3] re he
  have 1: "dialog (updateState getYfromX 3 ?e) = dialog ?e" by auto
  from updateState_absent_or_empty_series[of ?m 3] rm hm
  have 2: "dialog (updateState getYfromX 3 ?m) = dialog ?m" by auto
  from 1 2 he hm show ?thesis by blast
qed

lemma drive_dialog:
  "dialog (drive v s) = (dialog s)\<lparr>paused := True, seek_value := Some v\<rparr>"
  by (cases "paused (dialog s)") (simp_all add: drive_def invoke_def isPaused_def)

lemma drive_trace:
  "trace (drive v s) = trace s @ (if isPaused (dialog s) then [] else [Pause True]) @ [SeekByValue v]"
  by (simp add: drive_def invoke_def)

lemma drive_rest:
  "numeric (drive v s) = numeric s" "xml_loaded (drive v s) = xml_loaded s"
  by (simp_all add: drive_def invoke_def)

lemma updateState_seeking:
  assumes "\<not> isHidden (dialog s)" and "referenceCurve (dialog s) = name" and "name \<noteq> []"
    and "numeric s name = Some data" and "getY data t = Some v"
  shows "updateState getY t s = drive v (invoke (GetYfromX name t) (invoke (Find name) s))"
  using assms by (simp add: updateState_def Let_def invoke_def)

lemma reads_keep_dialog:
  "dialog (invoke (GetYfromX name t) (invoke (Find name) s)) = dialog s"
  "numeric (invoke (GetYfromX name t) (invoke (Find name) s)) = numeric s"
  "trace (invoke (GetYfromX name t) (invoke (Find name) s)) = trace s @ [Find name, GetYfromX name t]"
  by (simp_all add: invoke_def)

text \<open>
  Claim C4. When a tick reaches the seek, the seek is applied to a dialog that is paused;
  \<open>pause(true)\<close> is called before it exactly when the dialog was not paused, and not at
  all when it was. In particular the next tick, with nothing in between, calls no
  \<open>pause\<close>: where it seeks, its calls are the lookup, the sampling and the seek.
\<close>

theorem updateState_pauses_once_before_seek:
  assumes "\<not> isHidden (dialog s)" and "referenceCurve (dialog s) = name" and "name \<noteq> []"
    and "numeric s name = Some data" and "getY data t = Some v"
  shows "(\<exists>s'. updateState getY t s = invoke (SeekByValue v) s' \<and> isPaused (dialog s')
              \<and> new_calls s s' = [Find name, GetYfromX name t]
                    @ (if isPaused (dialog s) then [] else [Pause True]))
       \<and> new_calls s (updateState getY t s) = [Find name, GetYfromX name t]
              @ (if isPaused (dialog s) then [] else [Pause True]) @ [SeekByValue v]
       \<and> isPaused (dialog (updateState getY t s))
       \<and> (getY data t2 = Some v2 \<longrightarrow>
            new_calls (updateState getY t s) (updateState getY t2 (updateState getY t s))
              = [Find name, GetYfromX name t2, SeekByValue v2])
       \<and> Pause b \<notin> set (new_calls (updateState getY t s)
                                   (updateState getY t2 (updateState getY t s)))"
proof -
  let ?r = "invoke (GetYfromX name t) (invoke (Find name) s)"
  let ?p = "if \<not> isPaused (dialog ?r) then invoke (Pause True) ?r else ?r"
  let ?s1 = "updateState getY t s"
  have u: "?s1 = drive v ?r"
    using assms by (rule updateState_seeking[where getY = getY])
  have A: "?s1 = invoke (SeekByValue v) ?p" by (simp add: u drive_def)
  have B: "isPaused (dialog ?p)" by (simp add: invoke_def isPaused_def)
  have C: "new_calls s ?p = [Find name, GetYfromX name t]
                    @ (if isPaused (dialog s) then [] else [Pause True])"
    by (simp add: new_calls_def invoke_def isPaused_def)
  have D: "new_calls s ?s1 = [Find name, GetYfromX name t]
              @ (if isPaused (dialog s) then [] else [Pause True]) @ [SeekByValue v]"
    by (simp add: u new_calls_def drive_trace reads_keep_dialog)
  have d1: "dialog ?s1 = (dialog s)\<lparr>paused := True, seek_value := Some v\<rparr>"
    by (simp add: u drive_dialog reads_keep_dialog)
  have E: "isPaused (dialog ?s1)" by (simp add: d1 isPaused_def)
  have h1: "\<not> isHidden (dialog ?s1)" using assms(1) by (simp add: d1 isHidden_def)
  have r1: "referenceCurve (dialog ?s1) = name" using assms(2) by (simp add: d1 referenceCurve_def)
  have n1: "numeric ?s1 name = Some data" using assms(4) by (simp add: u drive_rest reads_keep_dialog)
  have F: "new_calls ?s1 (updateState getY t2 ?s1) = [Find name, GetYfromX name t2, SeekByValue w]"
    if "getY data t2 = Some w" for w
  proof -
    have "updateState getY t2 ?s1 = drive w (invoke (GetYfromX name t2) (invoke (Find name) ?s1))"
      using h1 r1 assms(3) n1 that by (rule updateState_seeking[where getY = getY])
    then show ?thesis using E by (simp add: new_calls_def drive_trace reads_keep_dialog)
  qed
  have G: "Pause b \<notin> set (new_calls ?s1 (updateState getY t2 ?s1))"
  proof (cases "getY data t2")
    case None
    then have "updateState getY t2 ?s1 = invoke (GetYfromX name t2) (invoke (Find name) ?s1)"
      using h1 r1 assms(3) n1 by (simp add: updateState_def Let_def invoke_def)
    then show ?thesis by (simp add: new_calls_def reads_keep_dialog)
  next
    case (Some w)
    from F[OF this] show ?thesis by simp
  qed
  from A B C have "\<exists>s'. ?s1 = invoke (SeekByValue v) s' \<and> isPaused (dialog s')
              \<and> new_calls s s' = [Find name, GetYfromX name t]
                    @ (if isPaused (dialog s) then [] else [Pause True])" by blast
  with D E F[of v2] G show ?thesis by blast
qed

theorem updateState_pauses_once_before_seek_witness:
  "\<not> isHidden (dialog example_publisher)
   \<and> referenceCurve (dialog example_publisher) = ''speed''
   \<and> numeric example_publisher ''speed'' = Some [(0, 10), (1, 20)]
   \<and> getYfromX [(0, 10), (1, 20)] (1 / 2) = Some 15
   \<and> new_calls example_publisher (updateState getYfromX (1 / 2) example_publisher)
       = [Find ''speed'', GetYfromX ''speed'' (1 / 2), Pause True, SeekByValue 15]
   \<and> new_calls (updateState getYfromX (1 / 2) example_publisher)
        (updateState getYfromX 1 (updateState getYfromX (1 / 2) example_publisher))
       = [Find ''speed'', GetYfromX ''speed'' 1, SeekByValue 20]"
proof -
  have h: "\<not> isHidden (dialog example_publisher)"
    by (simp add: isHidden_def example_publisher_def example_dialog_def)
  have r: "referenceCurve (dialog example_publisher) = ''speed''"
    by (simp add: referenceCurve_def example_publisher_def example_dialog_def)
  have ne: "''speed'' \<noteq> []" by simp
  have n: "numeric example_publisher ''speed'' = Some [(0, 10), (1, 20)]"
    by (simp add: example_publisher_def)
  have g: "getYfromX [(0, 10), (1, 20)] (1 / 2) = Some 15" by (simp add: getYfromX_def)
  have g2: "getYfromX [(0, 10), (1, 20)] 1 = Some 20" by (simp add: getYfromX_def)
  have p: "\<not> isPaused (dialog example_publisher)"
    by (simp add: isPaused_def example_publisher_def example_dialog_def)
  from updateState_pauses_once_before_seek[where getY = getYfromX and ?t2.0 = 1 and ?v2.0 = 20, OF h r ne n g]
       g2 p h r n g
  show ?thesis by simp
qed

text \<open>
  Claim C5. On a tick where the dialog is hidden or the reference curve name is empty,
  \<open>updateState\<close> returns the publisher unchanged, whatever the sampler is: no lookup, no
  sampling, no pause and no seek are made.
\<close>

theorem updateState_inactive:
  assumes "isHidden (dialog s) \<or> referenceCurve (dialog s) = []"
  shows "updateState getY t s = s \<and> new_calls s (updateState getY t s) = []"
  using assms by (auto simp: updateState_def new_calls_def)

theorem updateState_inactive_witness:
  "isHidden (dialog (on_ui (perform Hide) example_publisher))
   \<and> updateState getYfromX 1 (on_ui (perform Hide) example_publisher)
       = on_ui (perform Hide) example_publisher
   \<and> referenceCurve (dialog (on_ui (setText_lineEditReference []) example_publisher)) = []
   \<and> updateState getYfromX 1 (on_ui (setText_lineEditReference []) example_publisher)
       = on_ui (setText_lineEditReference []) example_publisher"
proof -
  have 1: "isHidden (dialog (on_ui (perform Hide) example_publisher))"
    by (simp add: isHidden_def on_ui_def)
  have 2: "referenceCurve (dialog (on_ui (setText_lineEditReference []) example_publisher)) = []"
    by (simp add: referenceCurve_def on_ui_def setText_lineEditReference_def)
  from updateState_inactive[of "on_ui (perform Hide) example_publisher" getYfromX 1]
       updateState_inactive[of "on_ui (setText_lineEditReference []) example_publisher" getYfromX 1]
       1 2
  show ?thesis by simp
qed

text \<open>
  Claim C9. \<open>play\<close> at a time does exactly what \<open>updateState\<close> does at that time: the
  same calls and the same resulting publisher.
\<close>

theorem play_is_updateState:
  "play getY t s = updateState getY t s"
  by (simp add: play_def)


section \<open>Properties of saving and loading\<close>

lemma childElements_append:
  "childElements (appendChild c e) = childElements e @ [c]"
  by (simp add: childElements_def appendChild_def map_filter_def)

lemma find_append_None:
  "find P xs = None \<Longrightarrow> find P (xs @ ys) = find P ys"
  by (induction xs) (auto split: if_splits)

lemma firstChildElement_append_fresh:
  assumes "firstChildElement name e = None" and "tagName c = name"
  shows "firstChildElement name (appendChild c e) = Some c"
  using assms
  by (simp add: firstChildElement_def childElements_append find_append_None)

lemma xmlSaveState_eq:
  "xmlSaveState parent s = (True, appendChild (saved_config s) parent)"
  by (simp add: xmlSaveState_def saved_config_def createElement_def setAttribute_def Let_def)

lemma xmlLoadState_saved_config:
  assumes "firstChildElement ''config'' parent = Some (saved_config s)"
  shows "xmlLoadState parent s0 =
    (True, s0\<lparr>dialog := (dialog s0)\<lparr>lineFilename := lineFilename (dialog s),
                  lineEditReference := lineEditReference (dialog s),
                  radioButtonFrame := radioButtonFrame (dialog s),
                  radioButtonTime := \<not> radioButtonFrame (dialog s)\<rparr>,
               trace := trace s0 @ [LoadFile (lineFilename (dialog s))],
               xml_loaded := True\<rparr>)"
  using assms
  by (simp add: xmlLoadState_def saved_config_def attribute_def invoke_def on_ui_def
      setText_lineEditReference_def setChecked_radioButtonFrame_def setChecked_radioButtonTime_def Let_def)

text \<open>
  Claim C7. For every publisher and every parent element that has no \<open>config\<close> child
  yet, \<open>xmlSaveState\<close> returns true and appends a \<open>config\<close> element holding the media
  file, the curve name and the frame flag; \<open>xmlLoadState\<close> on the resulting parent, in any
  publisher, returns true, hands the saved media file to the dialog's \<open>loadFile\<close>, and
  leaves the dialog with the saved media file, curve name and frame flag.
\<close>

theorem xml_save_load_round_trip:
  assumes "firstChildElement ''config'' parent = None"
  shows "fst (xmlSaveState parent s) = True
       \<and> childNodes (snd (xmlSaveState parent s)) = childNodes parent @ [ElementNode (saved_config s)]
       \<and> fst (xmlLoadState (snd (xmlSaveState parent s)) s0) = True
       \<and> lineFilename (dialog (snd (xmlLoadState (snd (xmlSaveState parent s)) s0)))
            = lineFilename (dialog s)
       \<and> lineEditReference (dialog (snd (xmlLoadState (snd (xmlSaveState parent s)) s0)))
            = lineEditReference (dialog s)
       \<and> radioButtonFrame (dialog (snd (xmlLoadState (snd (xmlSaveState parent s)) s0)))
            = radioButtonFrame (dialog s)
       \<and> new_calls s0 (snd (xmlLoadState (snd (xmlSaveState parent s)) s0))
            = [LoadFile (lineFilename (dialog s))]"
proof -
  have t: "tagName (saved_config s) = ''config''" by (simp add: saved_config_def)
  have "firstChildElement ''config'' (appendChild (saved_config s) parent) = Some (saved_config s)"
    by (rule firstChildElement_append_fresh[OF assms t])
  from xmlLoadState_saved_config[OF this, of s0]
  show ?thesis by (simp add: xmlSaveState_eq new_calls_def appendChild_def)
qed

theorem xml_save_load_round_trip_witness:
  "firstChildElement ''config'' (createElement ''plugin'') = None
   \<and> snd (xmlSaveState (createElement ''plugin'') example_publisher)
       = Element ''plugin'' []
           [ElementNode (Element ''config''
              [(''video_file'', ''/data/drive.mp4''), (''curve_name'', ''speed''), (''use_frame'', ''false'')] [])]
   \<and> lineEditReference (dialog (snd (xmlLoadState (snd (xmlSaveState (createElement ''plugin'') example_publisher))
         (on_ui (setText_lineEditReference []) example_publisher))))
       = ''speed''"
proof -
  have h: "firstChildElement ''config'' (createElement ''plugin'') = None"
    by (simp add: firstChildElement_def createElement_def childElements_def map_filter_def)
  have e: "snd (xmlSaveState (createElement ''plugin'') example_publisher)
       = Element ''plugin'' []
           [ElementNode (Element ''config''
              [(''video_file'', ''/data/drive.mp4''), (''curve_name'', ''speed''), (''use_frame'', ''false'')] [])]"
    by (simp add: xmlSaveState_def createElement_def setAttribute_def appendChild_def Let_def
        example_publisher_def example_dialog_def)
  have l: "lineEditReference (dialog example_publisher) = ''speed''"
    by (simp add: example_publisher_def example_dialog_def)
  from xml_save_load_round_trip[OF h, of example_publisher "on_ui (setText_lineEditReference []) example_publisher"]
  have "lineEditReference (dialog (snd (xmlLoadState (snd (xmlSaveState (createElement ''plugin'') example_publisher))
         (on_ui (setText_lineEditReference []) example_publisher))))
       = lineEditReference (dialog example_publisher)" by blast
  then have r: "lineEditReference (dialog (snd (xmlLoadState (snd (xmlSaveState (createElement ''plugin'') example_publisher))
         (on_ui (setText_lineEditReference []) example_publisher))))
       = ''speed''" using l by (rule trans)
  show ?thesis by (rule conjI[OF h conjI[OF e r]])
qed

text \<open>
  Claim C8. For a parent element without a \<open>config\<close> child element, \<open>xmlLoadState\<close>
  returns false and the publisher is exactly as before: nothing is raised, no call is
  made, and the state stays what it was.
\<close>

theorem xmlLoadState_without_config:
  assumes "firstChildElement ''config'' parent = None"
  shows "xmlLoadState parent s = (False, s)"
  using assms by (simp add: xmlLoadState_def)

theorem xmlLoadState_without_config_witness:
  "firstChildElement ''config'' (Element ''plugin'' [] [OtherNode ''#text'', ElementNode (createElement ''other'')]) = None
   \<and> xmlLoadState (Element ''plugin'' [] [OtherNode ''#text'', ElementNode (createElement ''other'')]) example_publisher
       = (False, example_publisher)"
proof -
  have h: "firstChildElement ''config''
      (Element ''plugin'' [] [OtherNode ''#text'', ElementNode (createElement ''other'')]) = None"
    by (simp add: firstChildElement_def createElement_def childElements_def map_filter_def)
  from xmlLoadState_without_config[OF h, of example_publisher] h show ?thesis by simp
qed


section \<open>Properties of enabling and disabling\<close>

lemma commaLoad_unset:
  "environ h ''VIDEO_PATH'' = None \<or> environ h ''VIDEO_REFERENCE_CURVE'' = None
   \<Longrightarrow> commaLoadVideoFromEnvironment h = (False, h)"
  by (auto simp: commaLoadVideoFromEnvironment_def Let_def split: option.splits)

lemma commaLoad_set:
  "environ h ''VIDEO_PATH'' = Some videoPath \<Longrightarrow> environ h ''VIDEO_REFERENCE_CURVE'' = Some curve
   \<Longrightarrow> commaLoadVideoFromEnvironment h =
       (True,
        h\<lparr>stdout := stdout h @ [''shitshityay2'', videoPath @ [CHR 0x09] @ curve],
          settings := (settings h)
            (''VideoDialog::loadDirectory'' \<mapsto> absolutePath h videoPath,
             ''VideoDialog.loadDirectory'' \<mapsto> absolutePath h videoPath,
             ''VideoDialog::video_file'' \<mapsto> videoPath,
             ''VideoDialog::curve_name'' \<mapsto> curve,
             ''VideoDialog.video_file'' \<mapsto> videoPath,
             ''VideoDialog.curve_name'' \<mapsto> curve)\<rparr>)"
  by (simp add: commaLoadVideoFromEnvironment_def Let_def setValue_def)

lemma commaLoad_fst:
  "fst (commaLoadVideoFromEnvironment h)
     = (environ h ''VIDEO_PATH'' \<noteq> None \<and> environ h ''VIDEO_REFERENCE_CURVE'' \<noteq> None)"
  by (auto simp: commaLoadVideoFromEnvironment_def Let_def split: option.splits)

lemma setEnabled_False:
  "setEnabled False (h, s) =
     (setValue ''VideoDialog::geometry'' (saveGeometry (dialog s))
        (setValue ''VideoDialog::curve_name'' (lineEditReference (dialog s))
           (setValue ''VideoDialog::video_file'' (lineFilename (dialog s))
              (snd (commaLoadVideoFromEnvironment h)))),
      invoke Hide s)"
  by (simp add: setEnabled_def Let_def split: prod.splits)

lemma setEnabled_True:
  "setEnabled True (h, s) =
     (snd (commaLoadVideoFromEnvironment h),
      invoke Show
        (if \<not> xml_loaded s \<or> fst (commaLoadVideoFromEnvironment h) then
           invoke (RestoreGeometry (settings_value (snd (commaLoadVideoFromEnvironment h)) ''VideoDialog::geometry'' []))
             (on_ui (setText_lineEditReference
                       (settings_value (snd (commaLoadVideoFromEnvironment h)) ''VideoDialog::curve_name'' []))
                (if settings_value (snd (commaLoadVideoFromEnvironment h)) ''VideoDialog::video_file'' []
                      \<noteq> lineFilename (dialog s) \<or> fst (commaLoadVideoFromEnvironment h)
                 then invoke (LoadFile (settings_value (snd (commaLoadVideoFromEnvironment h)) ''VideoDialog::video_file'' [])) s
                 else s))
         else s))"
  by (simp add: setEnabled_def Let_def split: prod.splits)

lemma setEnabled_True_from_environment:
  assumes "environ h ''VIDEO_PATH'' = Some videoPath"
    and "environ h ''VIDEO_REFERENCE_CURVE'' = Some curve"
  shows "settings (fst (setEnabled True (h, s))) =
           (settings h)
            (''VideoDialog::loadDirectory'' \<mapsto> absolutePath h videoPath,
             ''VideoDialog.loadDirectory'' \<mapsto> absolutePath h videoPath,
             ''VideoDialog::video_file'' \<mapsto> videoPath,
             ''VideoDialog::curve_name'' \<mapsto> curve,
             ''VideoDialog.video_file'' \<mapsto> videoPath,
             ''VideoDialog.curve_name'' \<mapsto> curve)"
    and "lineFilename (dialog (snd (setEnabled True (h, s)))) = videoPath"
    and "lineEditReference (dialog (snd (setEnabled True (h, s)))) = curve"
    and "new_calls s (snd (setEnabled True (h, s))) =
           [LoadFile videoPath,
            RestoreGeometry (settings_value h ''VideoDialog::geometry'' []),
            Show]"
  using commaLoad_set[OF assms]
  by (simp_all add: setEnabled_True settings_value_def invoke_def on_ui_def
      setText_lineEditReference_def new_calls_def)

lemma setEnabled_True_from_store:
  assumes "environ h ''VIDEO_PATH'' = None \<or> environ h ''VIDEO_REFERENCE_CURVE'' = None"
    and "\<not> xml_loaded s"
  shows "fst (setEnabled True (h, s)) = h"
    and "lineFilename (dialog (snd (setEnabled True (h, s))))
           = settings_value h ''VideoDialog::video_file'' []"
    and "lineEditReference (dialog (snd (setEnabled True (h, s))))
           = settings_value h ''VideoDialog::curve_name'' []"
    and "new_calls s (snd (setEnabled True (h, s))) =
           (if settings_value h ''VideoDialog::video_file'' [] \<noteq> lineFilename (dialog s)
            then [LoadFile (settings_value h ''VideoDialog::video_file'' [])] else [])
           @ [RestoreGeometry (settings_value h ''VideoDialog::geometry'' []), Show]"
  using commaLoad_unset[OF assms(1)] assms(2)
  by (auto simp: setEnabled_True invoke_def on_ui_def setText_lineEditReference_def new_calls_def)

text \<open>
  Claim C6, as amended. Disabling always saves the media file and the curve name of the
  form (and the geometry) to the store and hides the dialog. Enabling with both
  environment variables \<open>VIDEO_PATH\<close> and \<open>VIDEO_REFERENCE_CURVE\<close> set writes their values
  to the store, under the keys of the media file and the curve name among others, and
  loads them from there into the dialog, calling \<open>loadFile\<close>. Enabling without both
  variables leaves the store as it is; if no XML state has been loaded, the media file
  and the curve name of the store (empty where the key is absent) are loaded into the
  dialog; if an XML state has been loaded, the dialog keeps its media file and curve
  name and is only shown.
\<close>

theorem setEnabled_saves_and_loads:
  "settings (fst (setEnabled False (h, s))) ''VideoDialog::video_file'' = Some (lineFilename (dialog s))
   \<and> settings (fst (setEnabled False (h, s))) ''VideoDialog::curve_name''
        = Some (lineEditReference (dialog s))
   \<and> settings (fst (setEnabled False (h, s))) ''VideoDialog::geometry''
        = Some (saveGeometry (dialog s))
   \<and> snd (setEnabled False (h, s)) = invoke Hide s
   \<and> (environ h ''VIDEO_PATH'' = Some videoPath \<and> environ h ''VIDEO_REFERENCE_CURVE'' = Some curve \<longrightarrow>
        settings (fst (setEnabled True (h, s))) ''VideoDialog::video_file'' = Some videoPath
      \<and> settings (fst (setEnabled True (h, s))) ''VideoDialog::curve_name'' = Some curve
      \<and> settings (fst (setEnabled True (h, s))) =
           (settings h)
            (''VideoDialog::loadDirectory'' \<mapsto> absolutePath h videoPath,
             ''VideoDialog.loadDirectory'' \<mapsto> absolutePath h videoPath,
             ''VideoDialog::video_file'' \<mapsto> videoPath,
             ''VideoDialog::curve_name'' \<mapsto> curve,
             ''VideoDialog.video_file'' \<mapsto> videoPath,
             ''VideoDialog.curve_name'' \<mapsto> curve)
      \<and> lineFilename (dialog (snd (setEnabled True (h, s)))) = videoPath
      \<and> lineEditReference (dialog (snd (setEnabled True (h, s)))) = curve
      \<and> new_calls s (snd (setEnabled True (h, s))) =
           [LoadFile videoPath, RestoreGeometry (settings_value h ''VideoDialog::geometry'' []), Show])
   \<and> ((environ h ''VIDEO_PATH'' = None \<or> environ h ''VIDEO_REFERENCE_CURVE'' = None)
        \<and> \<not> xml_loaded s \<longrightarrow>
        fst (setEnabled True (h, s)) = h
      \<and> lineFilename (dialog (snd (setEnabled True (h, s))))
           = settings_value h ''VideoDialog::video_file'' []
      \<and> lineEditReference (dialog (snd (setEnabled True (h, s))))
           = settings_value h ''VideoDialog::curve_name'' []
      \<and> new_calls s (snd (setEnabled True (h, s))) =
           (if settings_value h ''VideoDialog::video_file'' [] \<noteq> lineFilename (dialog s)
            then [LoadFile (settings_value h ''VideoDialog::video_file'' [])] else [])
           @ [RestoreGeometry (settings_value h ''VideoDialog::geometry'' []), Show])
   \<and> ((environ h ''VIDEO_PATH'' = None \<or> environ h ''VIDEO_REFERENCE_CURVE'' = None)
        \<and> xml_loaded s \<longrightarrow>
        setEnabled True (h, s) = (h, invoke Show s))"
proof (intro conjI impI)
  show "settings (fst (setEnabled False (h, s))) ''VideoDialog::video_file'' = Some (lineFilename (dialog s))"
    by (simp add: setEnabled_False setValue_def)
  show "settings (fst (setEnabled False (h, s))) ''VideoDialog::curve_name''
        = Some (lineEditReference (dialog s))"
    by (simp add: setEnabled_False setValue_def)
  show "settings (fst (setEnabled False (h, s))) ''VideoDialog::geometry''
        = Some (saveGeometry (dialog s))"
    by (simp add: setEnabled_False setValue_def)
  show "snd (setEnabled False (h, s)) = invoke Hide s"
    by (simp add: setEnabled_False)
next
  assume e: "environ h ''VIDEO_PATH'' = Some videoPath \<and> environ h ''VIDEO_REFERENCE_CURVE'' = Some curve"
  then have e1: "environ h ''VIDEO_PATH'' = Some videoPath"
    and e2: "environ h ''VIDEO_REFERENCE_CURVE'' = Some curve" by simp_all
  note r = setEnabled_True_from_environment[OF e1 e2, of s]
  show "settings (fst (setEnabled True (h, s))) ''VideoDialog::video_file'' = Some videoPath"
    by (simp add: r(1))
  show "settings (fst (setEnabled True (h, s))) ''VideoDialog::curve_name'' = Some curve"
    by (simp add: r(1))
  show "settings (fst (setEnabled True (h, s))) =
           (settings h)
            (''VideoDialog::loadDirectory'' \<mapsto> absolutePath h videoPath,
             ''VideoDialog.loadDirectory'' \<mapsto> absolutePath h videoPath,
             ''VideoDialog::video_file'' \<mapsto> videoPath,
             ''VideoDialog::curve_name'' \<mapsto> curve,
             ''VideoDialog.video_file'' \<mapsto> videoPath,
             ''VideoDialog.curve_name'' \<mapsto> curve)"
    by (rule r(1))
  show "lineFilename (dialog (snd (setEnabled True (h, s)))) = videoPath" by (rule r(2))
  show "lineEditReference (dialog (snd (setEnabled True (h, s)))) = curve" by (rule r(3))
  show "new_calls s (snd (setEnabled True (h, s))) =
           [LoadFile videoPath, RestoreGeometry (settings_value h ''VideoDialog::geometry'' []), Show]"
    by (rule r(4))
next
  assume a: "(environ h ''VIDEO_PATH'' = None \<or> environ h ''VIDEO_REFERENCE_CURVE'' = None)
        \<and> \<not> xml_loaded s"
  then have a1: "environ h ''VIDEO_PATH'' = None \<or> environ h ''VIDEO_REFERENCE_CURVE'' = None"
    and a2: "\<not> xml_loaded s" by simp_all
  note r = setEnabled_True_from_store[OF a1 a2]
  show "fst (setEnabled True (h, s)) = h" by (rule r(1))
  show "lineFilename (dialog (snd (setEnabled True (h, s))))
           = settings_value h ''VideoDialog::video_file'' []" by (rule r(2))
  show "lineEditReference (dialog (snd (setEnabled True (h, s))))
           = settings_value h ''VideoDialog::curve_name'' []" by (rule r(3))
  show "new_calls s (snd (setEnabled True (h, s))) =
           (if settings_value h ''VideoDialog::video_file'' [] \<noteq> lineFilename (dialog s)
            then [LoadFile (settings_value h ''VideoDialog::video_file'' [])] else [])
           @ [RestoreGeometry (settings_value h ''VideoDialog::geometry'' []), Show]" by (rule r(4))
next
  assume a: "(environ h ''VIDEO_PATH'' = None \<or> environ h ''VIDEO_REFERENCE_CURVE'' = None)
        \<and> xml_loaded s"
  then have "commaLoadVideoFromEnvironment h = (False, h)" using commaLoad_unset[of h] by blast
  with a show "setEnabled True (h, s) = (h, invoke Show s)" by (simp add: setEnabled_True)
qed

theorem setEnabled_saves_and_loads_witness:
  "environ example_host_env ''VIDEO_PATH'' = Some ''/data/route.hevc''
   \<and> environ example_host_env ''VIDEO_REFERENCE_CURVE'' = Some ''steer''
   \<and> settings (fst (setEnabled True (example_host_env, example_publisher\<lparr>xml_loaded := True\<rparr>)))
        ''VideoDialog::video_file'' = Some ''/data/route.hevc''
   \<and> settings (fst (setEnabled True (example_host_env, example_publisher\<lparr>xml_loaded := True\<rparr>)))
        ''VideoDialog::curve_name'' = Some ''steer''
   \<and> lineFilename (dialog (snd (setEnabled True (example_host_env, example_publisher\<lparr>xml_loaded := True\<rparr>))))
        = ''/data/route.hevc''
   \<and> lineEditReference (dialog (snd (setEnabled True (example_host_env, example_publisher\<lparr>xml_loaded := True\<rparr>))))
        = ''steer''
   \<and> environ example_host ''VIDEO_PATH'' = None
   \<and> \<not> xml_loaded example_publisher
   \<and> lineFilename (dialog (snd (setEnabled True (example_host, example_publisher)))) = ''/data/other.mp4''
   \<and> lineEditReference (dialog (snd (setEnabled True (example_host, example_publisher)))) = ''accel''
   \<and> xml_loaded (example_publisher\<lparr>xml_loaded := True\<rparr>)
   \<and> setEnabled True (example_host, example_publisher\<lparr>xml_loaded := True\<rparr>)
       = (example_host, invoke Show (example_publisher\<lparr>xml_loaded := True\<rparr>))
   \<and> settings (fst (setEnabled False (example_host_env, example_publisher))) ''VideoDialog::curve_name''
       = Some ''speed''"
proof -
  let ?x = "example_publisher\<lparr>xml_loaded := True\<rparr>"
  have e1: "environ example_host_env ''VIDEO_PATH'' = Some ''/data/route.hevc''"
    and e2: "environ example_host_env ''VIDEO_REFERENCE_CURVE'' = Some ''steer''"
    by (simp_all add: example_host_env_def example_host_def)
  have n: "environ example_host ''VIDEO_PATH'' = None" by (simp add: example_host_def)
  have x: "\<not> xml_loaded example_publisher" by (simp add: example_publisher_def)
  have x': "xml_loaded ?x" by simp
  have v: "settings_value example_host ''VideoDialog::video_file'' [] = ''/data/other.mp4''"
    and c: "settings_value example_host ''VideoDialog::curve_name'' [] = ''accel''"
    by (simp_all add: settings_value_def example_host_def)
  have l: "lineEditReference (dialog example_publisher) = ''speed''"
    by (simp add: example_publisher_def example_dialog_def)
  from setEnabled_saves_and_loads[of example_host_env ?x "''/data/route.hevc''" "''steer''"] e1 e2
  have A: "settings (fst (setEnabled True (example_host_env, ?x))) ''VideoDialog::video_file''
             = Some ''/data/route.hevc''"
    and B: "settings (fst (setEnabled True (example_host_env, ?x))) ''VideoDialog::curve_name''
             = Some ''steer''"
    and C: "lineFilename (dialog (snd (setEnabled True (example_host_env, ?x)))) = ''/data/route.hevc''"
    and D: "lineEditReference (dialog (snd (setEnabled True (example_host_env, ?x)))) = ''steer''"
    by blast+
  from setEnabled_saves_and_loads[of example_host example_publisher] n x
  have "lineFilename (dialog (snd (setEnabled True (example_host, example_publisher))))
           = settings_value example_host ''VideoDialog::video_file'' []"
    and "lineEditReference (dialog (snd (setEnabled True (example_host, example_publisher))))
           = settings_value example_host ''VideoDialog::curve_name'' []"
    by blast+
  then have E: "lineFilename (dialog (snd (setEnabled True (example_host, example_publisher)))) = ''/data/other.mp4''"
    and F: "lineEditReference (dialog (snd (setEnabled True (example_host, example_publisher)))) = ''accel''"
    by (simp_all only: v c)
  from setEnabled_saves_and_loads[of example_host ?x] n x'
  have G: "setEnabled True (example_host, ?x) = (example_host, invoke Show ?x)" by blast
  from setEnabled_saves_and_loads[of example_host_env example_publisher]
  have "settings (fst (setEnabled False (example_host_env, example_publisher))) ''VideoDialog::curve_name''
       = Some (lineEditReference (dialog example_publisher))" by blast
  then have H: "settings (fst (setEnabled False (example_host_env, example_publisher))) ''VideoDialog::curve_name''
       = Some ''speed''" by (simp only: l)
  from e1 e2 A B C D n x E F x' G H show ?thesis by blast
qed

text \<open>
  The claim as it was stated fails once an XML state has been loaded and the environment
  gives no video: enabling leaves the curve \<open>speed\<close> and the file of the form in place
  although the store holds \<open>accel\<close> and another file, and the only call is \<open>show\<close>.
\<close>

theorem setEnabled_after_xml_load_counterexample:
  "settings (fst (setEnabled True (example_host, example_publisher\<lparr>xml_loaded := True\<rparr>)))
       ''VideoDialog::curve_name'' = Some ''accel''
   \<and> lineEditReference (dialog (snd (setEnabled True (example_host, example_publisher\<lparr>xml_loaded := True\<rparr>))))
       = ''speed''
   \<and> settings (fst (setEnabled True (example_host, example_publisher\<lparr>xml_loaded := True\<rparr>)))
       ''VideoDialog::video_file'' = Some ''/data/other.mp4''
   \<and> lineFilename (dialog (snd (setEnabled True (example_host, example_publisher\<lparr>xml_loaded := True\<rparr>))))
       = ''/data/drive.mp4''
   \<and> new_calls (example_publisher\<lparr>xml_loaded := True\<rparr>)
        (snd (setEnabled True (example_host, example_publisher\<lparr>xml_loaded := True\<rparr>))) = [Show]"
  by (simp add: setEnabled_def commaLoadVideoFromEnvironment_def example_host_def
      example_publisher_def example_dialog_def invoke_def new_calls_def Let_def)

section \<open>Properties of the validity check\<close>

lemma rule_loop_None: "(rule_loop es = None) = list_all rule_ok es"
  by (induction es) (auto simp: rule_ok_def)

lemma type_loop_None: "(type_loop es = None) = list_all rostype_ok es"
  by (induction es) (auto simp: rostype_ok_def rule_loop_None[symmetric] split: option.splits)

lemma namedItem_element:
  "\<not> list_ex (\<lambda>n. toElement n = None \<and> nodeName n = name) doc
   \<Longrightarrow> Option.bind (namedItem name doc) toElement = find (\<lambda>e. tagName e = name) (rootElements doc)"
proof (induction doc)
  case Nil
  then show ?case by (simp add: namedItem_def rootElements_def map_filter_def)
next
  case (Cons n doc)
  then show ?case
    by (cases n) (auto simp: namedItem_def rootElements_def map_filter_def)
qed

lemma isValidXml_parse_error:
  "setContent text = Inl errorStr \<Longrightarrow> isValidXml setContent text = (''Invalid XML: '' @ errorStr, False)"
  by (simp add: isValidXml_def)

lemma isValidXml_iff_valid_rules_document:
  assumes "setContent text = Inr doc"
    and "rootElements doc = [r]"
    and "\<not> list_ex (\<lambda>n. toElement n = None \<and> nodeName n = ''SubstitutionRules'') doc"
  shows "snd (isValidXml setContent text) = valid_rules_document doc"
proof -
  have b: "Option.bind (namedItem ''SubstitutionRules'' doc) toElement
        = (if tagName r = ''SubstitutionRules'' then Some r else None)"
    using namedItem_element[OF assms(3)] assms(2) by simp
  show ?thesis
  proof (cases "tagName r = ''SubstitutionRules''")
    case True
    then show ?thesis
      using assms(1,2) b type_loop_None[of "childElements r"]
      by (cases "type_loop (childElements r)") (simp_all add: isValidXml_def valid_rules_document_def)
  next
    case False
    then show ?thesis
      using assms(1,2) b by (simp add: isValidXml_def valid_rules_document_def)
  qed
qed

text \<open>
  Claim C10: \<open>isValidXml\<close> returns true exactly when the text parses, the document has a
  root element named \<open>SubstitutionRules\<close>, each child element of the root is a \<open>RosType\<close>
  with a \<open>name\<close>, and each child element of a \<open>RosType\<close> is a \<open>rule\<close> with \<open>pattern\<close>,
  \<open>alias\<close> and \<open>substitution\<close>. The two lemmas above give this whenever no node of
  another kind at the top of the document is named \<open>SubstitutionRules\<close>. The code departs
  from it on the example text: the text parses, its root element is \<open>SubstitutionRules\<close>
  and has no children, and yet \<open>isValidXml\<close> reports that the root node should be
  \<open>SubstitutionRules\<close> and returns false, because \<open>namedItem\<close> finds the processing
  instruction first.
\<close>

theorem isValidXml_rejects_shadowed_root:
  "example_setContent example_rules_text = Inr example_rules_document
   \<and> valid_rules_document example_rules_document
   \<and> isValidXml example_setContent example_rules_text
       = (''Invalid: the root node should be <SubstitutionRules>'', False)"
  by (simp add: example_setContent_def example_rules_document_def valid_rules_document_def
      rootElements_def map_filter_def childElements_def isValidXml_def namedItem_def)


end
